theory Spec2Isabelle
  imports Complex_Main "HOL-Library.Sublist"
begin

section \<open>Python helpers\<close>

text \<open>
  The exceptions the modelled code can raise: \<open>IndexError\<close> from indexing an empty
  list, \<open>ValueError\<close> from \<open>min\<close>/\<open>max\<close> of an empty sequence and from
  \<open>numpy.dot\<close> on vectors of different lengths, \<open>ZeroDivisionError\<close> from a division
  by zero.
\<close>

datatype error = IndexError | ValueError | ZeroDivisionError

text \<open>Python's slice bound: a negative bound counts from the end, both are clamped.\<close>

definition slice_bound :: "int \<Rightarrow> int \<Rightarrow> nat" where
  "slice_bound n k = (if k < 0 then nat (max (k + n) 0) else nat (min k n))"

text \<open>\<open>xs[lo:hi]\<close>\<close>

definition py_slice :: "'a list \<Rightarrow> int \<Rightarrow> int \<Rightarrow> 'a list" where
  "py_slice xs lo hi =
     (let n = int (length xs); a = slice_bound n lo; b = slice_bound n hi
      in take (b - a) (drop a xs))"

text \<open>\<open>xs[:hi]\<close>\<close>

definition py_prefix :: "'a list \<Rightarrow> int \<Rightarrow> 'a list" where
  "py_prefix xs hi = take (slice_bound (int (length xs)) hi) xs"

text \<open>\<open>sep.join(xs)\<close>\<close>

fun join :: "string \<Rightarrow> string list \<Rightarrow> string" where
  "join sep [] = []"
| "join sep [x] = x"
| "join sep (x # y # ys) = x @ sep @ join sep (y # ys)"

section \<open>Chunker: \<open>DocumentSplitter.split_pages_into_chunks\<close>\<close>

text \<open>The three constructor parameters of \<open>DocumentSplitter\<close>.\<close>

record DocumentSplitter =
  max_chunk_size :: int
  min_chunk_size :: int
  overlap_pages :: int

text \<open>A page dictionary as \<open>extract_text_from_pdf\<close> builds it.\<close>

record Page =
  pg_page_number :: int
  pg_text :: string
  pg_char_count :: int

text \<open>A chunk dictionary as \<open>split_pages_into_chunks\<close> builds it.\<close>

record Chunk =
  ck_page_start :: int
  ck_page_end :: int
  ck_text :: string
  ck_char_count :: int
  ck_page_count :: int

text \<open>
  Lines 60 to 68: the chunk built from \<open>chunk_pages\<close>. \<open>chunk_pages[0]\<close> and
  \<open>chunk_pages[-1]\<close> raise \<open>IndexError\<close> on an empty slice.
\<close>

definition make_chunk :: "Page list \<Rightarrow> error + Chunk" where
  "make_chunk chunk_pages =
     (let combined_text = join ''\<newline>\<newline>'' (map pg_text chunk_pages)
      in if chunk_pages = [] then Inl IndexError
         else Inr \<lparr> ck_page_start = pg_page_number (hd chunk_pages),
                    ck_page_end = pg_page_number (last chunk_pages),
                    ck_text = combined_text,
                    ck_char_count = int (length combined_text),
                    ck_page_count = int (length chunk_pages) \<rparr>)"

text \<open>Line 73: the next scan index.\<close>

definition next_index :: "DocumentSplitter \<Rightarrow> int \<Rightarrow> int \<Rightarrow> int" where
  "next_index self i chunk_end =
     (if overlap_pages self > 0 then max (i + 1) (chunk_end - overlap_pages self)
      else chunk_end)"

text \<open>
  Lines 52 to 73: the \<open>while\<close> loop. A run that never leaves the loop is \<open>None\<close>;
  a raised exception is \<open>Some (Inl e)\<close>.
\<close>

partial_function (option) chunk_loop ::
  "DocumentSplitter \<Rightarrow> Page list \<Rightarrow> int \<Rightarrow> Chunk list \<Rightarrow> (error + Chunk list) option" where
  "chunk_loop self pages i chunks =
     (if i < int (length pages) then
        (let chunk_end = min (i + max_chunk_size self) (int (length pages)) in
         case make_chunk (py_slice pages i chunk_end) of
           Inl e \<Rightarrow> Some (Inl e)
         | Inr chunk \<Rightarrow> chunk_loop self pages (next_index self i chunk_end) (chunks @ [chunk]))
      else Some (Inr chunks))"

declare chunk_loop.simps [code]

definition split_pages_into_chunks ::
  "DocumentSplitter \<Rightarrow> Page list \<Rightarrow> (error + Chunk list) option" where
  "split_pages_into_chunks self pages =
     (if pages = [] then Some (Inr []) else chunk_loop self pages 0 [])"

text \<open>
  The specification's algorithm, in its own words: scan the page index from \<open>i\<close>; each
  chunk covers \<open>[i, min (i + max_chunk_size) total_pages)\<close>; the next starting index is
  \<open>max (i + 1) (chunk_end - overlap_pages)\<close> when \<open>overlap_pages > 0\<close>, else
  \<open>chunk_end\<close>. The list of the index ranges so produced.
\<close>

function spec_chunk_ranges :: "int \<Rightarrow> int \<Rightarrow> int \<Rightarrow> int \<Rightarrow> (int \<times> int) list" where
  "spec_chunk_ranges total_pages mx ov i =
     (if 0 \<le> i \<and> i < total_pages \<and> 0 < mx \<and> 0 \<le> ov then
        (let chunk_end = min (i + mx) total_pages in
         (i, chunk_end) #
           spec_chunk_ranges total_pages mx ov
             (if ov > 0 then max (i + 1) (chunk_end - ov) else chunk_end))
      else [])"
  by pat_completeness auto
termination
  by (relation "measure (\<lambda>(total_pages, mx, ov, i). nat (total_pages - i))") auto

declare spec_chunk_ranges.simps [simp del]

text \<open>The pages of the index range \<open>[s, e)\<close>, in their order.\<close>

definition pages_of_range :: "Page list \<Rightarrow> int \<times> int \<Rightarrow> Page list" where
  "pages_of_range pages r = take (nat (snd r) - nat (fst r)) (drop (nat (fst r)) pages)"

text \<open>Four sample pages, used for concrete runs.\<close>

definition page1 :: Page where
  "page1 = \<lparr>pg_page_number = 1, pg_text = ''a'', pg_char_count = 1\<rparr>"

definition page2 :: Page where
  "page2 = \<lparr>pg_page_number = 2, pg_text = ''bc'', pg_char_count = 2\<rparr>"

definition page3 :: Page where
  "page3 = \<lparr>pg_page_number = 3, pg_text = ''d'', pg_char_count = 1\<rparr>"

definition page4 :: Page where
  "page4 = \<lparr>pg_page_number = 4, pg_text = ''ef'', pg_char_count = 2\<rparr>"

text \<open>The five entries of a chunk dictionary.\<close>

definition chunk_view :: "Chunk \<Rightarrow> int \<times> int \<times> string \<times> int \<times> int" where
  "chunk_view c = (ck_page_start c, ck_page_end c, ck_text c, ck_char_count c, ck_page_count c)"

section \<open>Node model: \<open>DocumentNode\<close>\<close>

datatype NodeType = ROOT | BRANCH | LEAF

text \<open>The values the code stores in a node's \<open>metadata\<close> dictionary.\<close>

datatype meta_value = MInt int | MBool bool

type_synonym node_id = string

text \<open>
  The dataclass \<open>DocumentNode\<close>. Embeddings are lists of floats in the source; they are
  modelled over the reals. \<open>metadata\<close> is a dictionary, kept as an association list.
\<close>

record DocumentNode =
  nd_id :: node_id
  nd_content :: string
  nd_summary :: string
  nd_embedding :: "real list option"
  nd_node_type :: NodeType
  nd_parent_id :: "node_id option"
  nd_children_ids :: "node_id list"
  nd_document_id :: string
  nd_level :: int
  nd_page_start :: "int option"
  nd_page_end :: "int option"
  nd_metadata :: "(string \<times> meta_value) list"

definition is_leaf :: "DocumentNode \<Rightarrow> bool" where
  "is_leaf node = (length (nd_children_ids node) = 0)"

definition is_root :: "DocumentNode \<Rightarrow> bool" where
  "is_root node = (nd_parent_id node = None)"

text \<open>\<open>str(n)\<close> for an integer, as the f-strings of \<open>get_page_range\<close> print it.\<close>

function str_nat :: "nat \<Rightarrow> string" where
  "str_nat n =
     (if n < 10 then [char_of (48 + n)] else str_nat (n div 10) @ [char_of (48 + n mod 10)])"
  by pat_completeness auto
termination
  by (relation "measure (\<lambda>n. n)") auto

declare str_nat.simps [simp del]

definition str_int :: "int \<Rightarrow> string" where
  "str_int i = (if i < 0 then ''-'' @ str_nat (nat (- i)) else str_nat (nat i))"

definition get_page_range :: "DocumentNode \<Rightarrow> string" where
  "get_page_range node =
     (case nd_page_start node of
        None \<Rightarrow> ''N/A''
      | Some ps \<Rightarrow>
          if nd_page_end node = None \<or> nd_page_end node = Some ps then ''Page '' @ str_int ps
          else (case nd_page_end node of
                  None \<Rightarrow> ''Page '' @ str_int ps
                | Some pe \<Rightarrow> ''Pages '' @ str_int ps @ ''-'' @ str_int pe))"

section \<open>Navigator: \<open>TreeNavigator\<close>\<close>

text \<open>
  The lookup capability \<open>db_connector.get_node_by_id\<close>: the node stored under an
  identifier, or \<open>None\<close>.
\<close>

type_synonym node_store = "node_id \<Rightarrow> DocumentNode option"

text \<open>\<open>xs.index(x)\<close>: the first position of \<open>x\<close>; \<open>None\<close> stands for the \<open>ValueError\<close>.\<close>

fun index_of :: "'a list \<Rightarrow> 'a \<Rightarrow> nat option" where
  "index_of [] x = None"
| "index_of (y # ys) x = (if y = x then Some 0 else map_option Suc (index_of ys x))"

text \<open>\<open>not node.parent_id\<close> holds for \<open>None\<close> and for the empty string.\<close>

definition navigate_to_parent :: "node_store \<Rightarrow> node_id \<Rightarrow> DocumentNode option" where
  "navigate_to_parent db node_id =
     (case db node_id of
        None \<Rightarrow> None
      | Some node \<Rightarrow>
          (case nd_parent_id node of
             None \<Rightarrow> None
           | Some pid \<Rightarrow> if pid = [] then None else db pid))"

definition navigate_to_children :: "node_store \<Rightarrow> node_id \<Rightarrow> DocumentNode list" where
  "navigate_to_children db node_id =
     (case db node_id of
        None \<Rightarrow> []
      | Some node \<Rightarrow>
          concat (map (\<lambda>child_id. case db child_id of None \<Rightarrow> [] | Some child \<Rightarrow> [child])
                      (nd_children_ids node)))"

definition navigate_to_next_sibling :: "node_store \<Rightarrow> node_id \<Rightarrow> DocumentNode option" where
  "navigate_to_next_sibling db node_id =
     (case db node_id of
        None \<Rightarrow> None
      | Some node \<Rightarrow>
          (case nd_parent_id node of
             None \<Rightarrow> None
           | Some pid \<Rightarrow>
               if pid = [] then None
               else (case db pid of
                       None \<Rightarrow> None
                     | Some parent \<Rightarrow>
                         (case index_of (nd_children_ids parent) node_id of
                            None \<Rightarrow> None
                          | Some current_index \<Rightarrow>
                              if current_index + 1 < length (nd_children_ids parent)
                              then db (nd_children_ids parent ! (current_index + 1))
                              else None))))"

definition navigate_to_previous_sibling :: "node_store \<Rightarrow> node_id \<Rightarrow> DocumentNode option" where
  "navigate_to_previous_sibling db node_id =
     (case db node_id of
        None \<Rightarrow> None
      | Some node \<Rightarrow>
          (case nd_parent_id node of
             None \<Rightarrow> None
           | Some pid \<Rightarrow>
               if pid = [] then None
               else (case db pid of
                       None \<Rightarrow> None
                     | Some parent \<Rightarrow>
                         (case index_of (nd_children_ids parent) node_id of
                            None \<Rightarrow> None
                          | Some current_index \<Rightarrow>
                              if current_index > 0
                              then db (nd_children_ids parent ! (current_index - 1))
                              else None))))"

text \<open>One entry of the breadcrumb path.\<close>

record Breadcrumb =
  bc_id :: node_id
  bc_summary :: string
  bc_page_range :: string
  bc_level :: int

definition breadcrumb_of :: "DocumentNode \<Rightarrow> Breadcrumb" where
  "breadcrumb_of current_node =
     \<lparr> bc_id = nd_id current_node,
       bc_summary = (if nd_summary current_node = [] then ''Section'' else nd_summary current_node),
       bc_page_range = get_page_range current_node,
       bc_level = nd_level current_node \<rparr>"

text \<open>
  The \<open>while current_node\<close> loop of \<open>get_breadcrumb_path\<close>. On a cyclic parent chain it
  never returns: the value \<open>None\<close>.
\<close>

partial_function (option) breadcrumb_loop ::
  "node_store \<Rightarrow> DocumentNode option \<Rightarrow> Breadcrumb list \<Rightarrow> Breadcrumb list option" where
  "breadcrumb_loop db current_node path =
     (case current_node of
        None \<Rightarrow> Some path
      | Some cur \<Rightarrow>
          (case nd_parent_id cur of
             None \<Rightarrow> Some (path @ [breadcrumb_of cur])
           | Some pid \<Rightarrow>
               if pid = [] then Some (path @ [breadcrumb_of cur])
               else breadcrumb_loop db (db pid) (path @ [breadcrumb_of cur])))"

declare breadcrumb_loop.simps [code]

definition get_breadcrumb_path :: "node_store \<Rightarrow> node_id \<Rightarrow> Breadcrumb list option" where
  "get_breadcrumb_path db node_id = map_option rev (breadcrumb_loop db (db node_id) [])"

text \<open>
  The recursive descents. The outer \<open>option\<close> is \<open>None\<close> when the recursion never ends
  (a cyclic store); the inner one is the \<open>Optional[DocumentNode]\<close> of the source.
\<close>

partial_function (option) find_first_leaf_in_subtree ::
  "node_store \<Rightarrow> DocumentNode \<Rightarrow> DocumentNode option option" where
  "find_first_leaf_in_subtree db node =
     (if is_leaf node then Some (Some node)
      else if nd_children_ids node \<noteq> [] then
        (case db (hd (nd_children_ids node)) of
           Some first_child \<Rightarrow> find_first_leaf_in_subtree db first_child
         | None \<Rightarrow> Some None)
      else Some None)"

partial_function (option) find_last_leaf_in_subtree ::
  "node_store \<Rightarrow> DocumentNode \<Rightarrow> DocumentNode option option" where
  "find_last_leaf_in_subtree db node =
     (if is_leaf node then Some (Some node)
      else if nd_children_ids node \<noteq> [] then
        (case db (last (nd_children_ids node)) of
           Some last_child \<Rightarrow> find_last_leaf_in_subtree db last_child
         | None \<Rightarrow> Some None)
      else Some None)"

declare find_first_leaf_in_subtree.simps [code]

declare find_last_leaf_in_subtree.simps [code]

text \<open>Lines 167 to 175: the \<open>while current_node\<close> loop of \<open>find_next_leaf_node\<close>.\<close>

partial_function (option) next_leaf_loop ::
  "node_store \<Rightarrow> DocumentNode option \<Rightarrow> DocumentNode option option" where
  "next_leaf_loop db current_node =
     (case current_node of
        None \<Rightarrow> Some None
      | Some cur \<Rightarrow>
          (case navigate_to_next_sibling db (nd_id cur) of
             Some next_sibling \<Rightarrow> find_first_leaf_in_subtree db next_sibling
           | None \<Rightarrow> next_leaf_loop db (navigate_to_parent db (nd_id cur))))"

declare next_leaf_loop.simps [code]

definition find_next_leaf_node :: "node_store \<Rightarrow> node_id \<Rightarrow> DocumentNode option option" where
  "find_next_leaf_node db node_id =
     (case db node_id of
        None \<Rightarrow> Some None
      | Some node \<Rightarrow>
          if nd_children_ids node \<noteq> [] then
            (case db (hd (nd_children_ids node)) of
               Some first_child \<Rightarrow> find_first_leaf_in_subtree db first_child
             | None \<Rightarrow> next_leaf_loop db (Some node))
          else next_leaf_loop db (Some node))"

definition find_previous_leaf_node :: "node_store \<Rightarrow> node_id \<Rightarrow> DocumentNode option option" where
  "find_previous_leaf_node db node_id =
     (case db node_id of
        None \<Rightarrow> Some None
      | Some node \<Rightarrow>
          (case navigate_to_previous_sibling db node_id of
             Some prev_sibling \<Rightarrow> find_last_leaf_in_subtree db prev_sibling
           | None \<Rightarrow>
               (case navigate_to_parent db node_id of
                  Some parent \<Rightarrow> if is_leaf parent then Some (Some parent) else Some None
                | None \<Rightarrow> Some None)))"

text \<open>
  The specification's previous leaf in document order, in its own words: the mirror of
  \<open>find_next_leaf_node\<close>'s upward walk, using previous siblings and the last-leaf descent:
  walk up through the ancestors looking for the first ancestor-or-self with a previous
  sibling, then return the last leaf of that sibling's subtree; absent if there is none.
\<close>

partial_function (option) spec_previous_leaf_loop ::
  "node_store \<Rightarrow> DocumentNode option \<Rightarrow> DocumentNode option option" where
  "spec_previous_leaf_loop db current_node =
     (case current_node of
        None \<Rightarrow> Some None
      | Some cur \<Rightarrow>
          (case navigate_to_previous_sibling db (nd_id cur) of
             Some prev_sibling \<Rightarrow> find_last_leaf_in_subtree db prev_sibling
           | None \<Rightarrow> spec_previous_leaf_loop db (navigate_to_parent db (nd_id cur))))"

declare spec_previous_leaf_loop.simps [code]

definition spec_previous_leaf :: "node_store \<Rightarrow> node_id \<Rightarrow> DocumentNode option option" where
  "spec_previous_leaf db node_id =
     (case db node_id of
        None \<Rightarrow> Some None
      | Some node \<Rightarrow> spec_previous_leaf_loop db (Some node))"

text \<open>
  A well-formed sample tree in a store: root \<open>R\<close> over \<open>A\<close> and \<open>B\<close>, \<open>A\<close> over the leaves
  \<open>a1\<close>, \<open>a2\<close> and \<open>B\<close> over the leaves \<open>b1\<close>, \<open>b2\<close>.
\<close>

definition sample_node :: "node_id \<Rightarrow> node_id option \<Rightarrow> node_id list \<Rightarrow> int \<Rightarrow> DocumentNode" where
  "sample_node i p cs l =
     \<lparr> nd_id = i, nd_content = [], nd_summary = [], nd_embedding = None,
       nd_node_type = (if p = None then ROOT else if cs = [] then LEAF else BRANCH),
       nd_parent_id = p, nd_children_ids = cs, nd_document_id = ''doc'', nd_level = l,
       nd_page_start = None, nd_page_end = None, nd_metadata = [] \<rparr>"

definition sample_store :: node_store where
  "sample_store = map_of
     [(''R'', sample_node ''R'' None [''A'', ''B''] 0),
      (''A'', sample_node ''A'' (Some ''R'') [''a1'', ''a2''] 1),
      (''B'', sample_node ''B'' (Some ''R'') [''b1'', ''b2''] 1),
      (''a1'', sample_node ''a1'' (Some ''A'') [] 2),
      (''a2'', sample_node ''a2'' (Some ''A'') [] 2),
      (''b1'', sample_node ''b1'' (Some ''B'') [] 2),
      (''b2'', sample_node ''b2'' (Some ''B'') [] 2)]"

section \<open>Object store and tree: \<open>DocumentTree\<close>\<close>

text \<open>
  Python's node objects are mutable and shared between the lists of the builder and the
  tree's dictionary, so they live in a store: a reference is an address, the heap maps every
  address to the node's current state, and the lists and the dictionary hold references.
  \<open>uuid4()\<close> is a supply of identifiers: the \<open>n\<close>-th call returns \<open>uuid_source n\<close>.
\<close>

type_synonym ref = nat

record world =
  heap :: "ref \<Rightarrow> DocumentNode"
  next_ref :: ref
  uuid_source :: "nat \<Rightarrow> node_id"
  uuid_used :: nat

definition uuid4 :: "world \<Rightarrow> node_id \<times> world" where
  "uuid4 w = (uuid_source w (uuid_used w), w\<lparr>uuid_used := uuid_used w + 1\<rparr>)"

text \<open>The constructor call \<open>DocumentNode(...)\<close>: a new object.\<close>

definition new_node :: "world \<Rightarrow> DocumentNode \<Rightarrow> ref \<times> world" where
  "new_node w node =
     (next_ref w, w\<lparr>heap := (heap w)(next_ref w := node), next_ref := Suc (next_ref w)\<rparr>)"

text \<open>\<open>DocumentNode.add_child\<close>, on the objects \<open>self\<close> and \<open>child_node\<close>.\<close>

definition add_child :: "world \<Rightarrow> ref \<Rightarrow> ref \<Rightarrow> world" where
  "add_child w self child_node =
     (if nd_id (heap w child_node) \<notin> set (nd_children_ids (heap w self)) then
        (let w1 = w\<lparr>heap := (heap w)(self := (heap w self)
                      \<lparr>nd_children_ids := nd_children_ids (heap w self) @ [nd_id (heap w child_node)]\<rparr>)\<rparr>;
             w2 = w1\<lparr>heap := (heap w1)(child_node := (heap w1 child_node)
                      \<lparr>nd_parent_id := Some (nd_id (heap w1 self))\<rparr>)\<rparr>;
             w3 = w2\<lparr>heap := (heap w2)(child_node := (heap w2 child_node)
                      \<lparr>nd_level := nd_level (heap w2 self) + 1\<rparr>)\<rparr>
         in if nd_node_type (heap w3 self) = LEAF \<and> length (nd_children_ids (heap w3 self)) > 0
            then w3\<lparr>heap := (heap w3)(self := (heap w3 self)\<lparr>nd_node_type := BRANCH\<rparr>)\<rparr>
            else w3)
      else w)"

text \<open>
  The class \<open>DocumentTree\<close>. \<open>nodes\<close> is a dictionary from identifier to node object;
  it keeps insertion order.
\<close>

record DocumentTree =
  tr_document_id :: string
  tr_document_title :: string
  tr_nodes :: "(node_id \<times> ref) list"
  tr_root_node_id :: "node_id option"

definition new_tree :: "string \<Rightarrow> DocumentTree" where
  "new_tree document_id =
     \<lparr> tr_document_id = document_id, tr_document_title = [], tr_nodes = [],
       tr_root_node_id = None \<rparr>"

text \<open>\<open>d[k] = v\<close>\<close>

fun dict_set :: "('k \<times> 'v) list \<Rightarrow> 'k \<Rightarrow> 'v \<Rightarrow> ('k \<times> 'v) list" where
  "dict_set [] k v = [(k, v)]"
| "dict_set ((k', v') # d) k v = (if k' = k then (k, v) # d else (k', v') # dict_set d k v)"

text \<open>\<open>d.get(k, dflt)\<close>\<close>

definition dict_get :: "('k \<times> 'v) list \<Rightarrow> 'k \<Rightarrow> 'v \<Rightarrow> 'v" where
  "dict_get d k dflt = (case map_of d k of None \<Rightarrow> dflt | Some v \<Rightarrow> v)"

text \<open>\<open>DocumentTree.add_node\<close>\<close>

definition add_node :: "world \<Rightarrow> DocumentTree \<Rightarrow> ref \<Rightarrow> DocumentTree \<times> world" where
  "add_node w tree node =
     (let tree1 = tree\<lparr>tr_nodes := dict_set (tr_nodes tree) (nd_id (heap w node)) node\<rparr>
      in if tr_root_node_id tree1 = None \<or> is_root (heap w node)
         then (tree1\<lparr>tr_root_node_id := Some (nd_id (heap w node))\<rparr>,
               w\<lparr>heap := (heap w)(node := (heap w node)\<lparr>nd_node_type := ROOT\<rparr>)\<rparr>)
         else (tree1, w))"

text \<open>\<open>for node in nodes: tree.add_node(node)\<close>\<close>

fun add_nodes :: "world \<Rightarrow> DocumentTree \<Rightarrow> ref list \<Rightarrow> DocumentTree \<times> world" where
  "add_nodes w tree [] = (tree, w)"
| "add_nodes w tree (node # rest) =
     (case add_node w tree node of (tree1, w1) \<Rightarrow> add_nodes w1 tree1 rest)"

text \<open>\<open>tree.nodes.values()\<close>: the nodes in the dictionary's order.\<close>

definition tree_values :: "world \<Rightarrow> DocumentTree \<Rightarrow> DocumentNode list" where
  "tree_values w tree = map (\<lambda>kv. heap w (snd kv)) (tr_nodes tree)"

section \<open>Tree builder: \<open>DocumentSplitter.build_tree_structure\<close>\<close>

text \<open>\<open>create_leaf_nodes\<close>: one new leaf object per chunk, in order.\<close>

fun create_leaf_nodes_loop ::
  "world \<Rightarrow> Chunk list \<Rightarrow> string \<Rightarrow> ref list \<Rightarrow> ref list \<times> world" where
  "create_leaf_nodes_loop w [] document_id leaf_nodes = (leaf_nodes, w)"
| "create_leaf_nodes_loop w (chunk # rest) document_id leaf_nodes =
     (case uuid4 w of (uid, w1) \<Rightarrow>
      case new_node w1
             \<lparr> nd_id = uid, nd_content = ck_text chunk, nd_summary = [], nd_embedding = None,
               nd_node_type = LEAF, nd_parent_id = None, nd_children_ids = [],
               nd_document_id = document_id, nd_level = 1,
               nd_page_start = Some (ck_page_start chunk), nd_page_end = Some (ck_page_end chunk),
               nd_metadata = [(''char_count'', MInt (ck_char_count chunk)),
                              (''page_count'', MInt (ck_page_count chunk))] \<rparr>
      of (node, w2) \<Rightarrow> create_leaf_nodes_loop w2 rest document_id (leaf_nodes @ [node]))"

definition create_leaf_nodes :: "world \<Rightarrow> Chunk list \<Rightarrow> string \<Rightarrow> ref list \<times> world" where
  "create_leaf_nodes w chunks document_id = create_leaf_nodes_loop w chunks document_id []"

text \<open>\<open>min(...)\<close> and \<open>max(...)\<close> of a generator: \<open>ValueError\<close> when it yields nothing.\<close>

fun py_min :: "int list \<Rightarrow> error + int" where
  "py_min [] = Inl ValueError"
| "py_min (x # xs) = Inr (fold min xs x)"

fun py_max :: "int list \<Rightarrow> error + int" where
  "py_max [] = Inl ValueError"
| "py_max (x # xs) = Inr (fold max xs x)"

text \<open>\<open>x for x in xs if x\<close> on optional integers: \<open>None\<close> and \<open>0\<close> are dropped.\<close>

definition truthy_ints :: "int option list \<Rightarrow> int list" where
  "truthy_ints xs = concat (map (\<lambda>x. case x of None \<Rightarrow> [] | Some p \<Rightarrow> if p = 0 then [] else [p]) xs)"

text \<open>The integer a metadata value counts as in \<open>sum\<close>.\<close>

fun meta_int :: "meta_value \<Rightarrow> int" where
  "meta_int (MInt i) = i"
| "meta_int (MBool b) = (if b then 1 else 0)"

text \<open>\<open>for child in grp: parent_node.add_child(child)\<close>\<close>

fun add_children :: "world \<Rightarrow> ref \<Rightarrow> ref list \<Rightarrow> world" where
  "add_children w parent_node [] = w"
| "add_children w parent_node (child # rest) = add_children (add_child w parent_node child) parent_node rest"

text \<open>Lines 113 to 132: one parent node over \<open>grp\<close>.\<close>

definition make_parent :: "world \<Rightarrow> ref list \<Rightarrow> string \<Rightarrow> int \<Rightarrow> error + ref \<times> world" where
  "make_parent w grp document_id level =
     (case uuid4 w of (uid, w1) \<Rightarrow>
      case py_min (truthy_ints (map (\<lambda>node. nd_page_start (heap w1 node)) grp)) of
        Inl e \<Rightarrow> Inl e
      | Inr page_start \<Rightarrow>
      case py_max (truthy_ints (map (\<lambda>node. nd_page_end (heap w1 node)) grp)) of
        Inl e \<Rightarrow> Inl e
      | Inr page_end \<Rightarrow>
      case new_node w1
             \<lparr> nd_id = uid, nd_content = [], nd_summary = [], nd_embedding = None,
               nd_node_type = BRANCH, nd_parent_id = None, nd_children_ids = [],
               nd_document_id = document_id, nd_level = level,
               nd_page_start = Some page_start, nd_page_end = Some page_end,
               nd_metadata =
                 [(''child_count'', MInt (int (length grp))),
                  (''total_pages'',
                     MInt (sum_list (map (\<lambda>node. meta_int (dict_get (nd_metadata (heap w1 node))
                                                      ''page_count'' (MInt 1))) grp)))] \<rparr>
      of (parent_node, w2) \<Rightarrow> Inr (parent_node, add_children w2 parent_node grp))"

text \<open>
  Line 110: \<open>for i in range(0, len(child_nodes), group_size)\<close>; a step of \<open>0\<close> is a
  \<open>ValueError\<close> of \<open>range\<close>.
\<close>

function parents_loop ::
  "world \<Rightarrow> ref list \<Rightarrow> nat \<Rightarrow> string \<Rightarrow> int \<Rightarrow> nat \<Rightarrow> ref list \<Rightarrow> error + ref list \<times> world" where
  "parents_loop w child_nodes group_size document_id level i parent_nodes =
     (if group_size = 0 then Inl ValueError
      else if i < length child_nodes then
        (case make_parent w (take group_size (drop i child_nodes)) document_id level of
           Inl e \<Rightarrow> Inl e
         | Inr (parent_node, w1) \<Rightarrow>
             parents_loop w1 child_nodes group_size document_id level (i + group_size)
               (parent_nodes @ [parent_node]))
      else Inr (parent_nodes, w))"
  by pat_completeness auto
termination
  by (relation "measure (\<lambda>(w, child_nodes, group_size, document_id, level, i, parent_nodes).
        length child_nodes - i)") auto

declare parents_loop.simps [simp del]

definition create_parent_nodes ::
  "world \<Rightarrow> ref list \<Rightarrow> string \<Rightarrow> int \<Rightarrow> error + ref list \<times> world" where
  "create_parent_nodes w child_nodes document_id level =
     (if length child_nodes \<le> 1 then Inr (child_nodes, w)
      else parents_loop w child_nodes (min 5 (max 2 (length child_nodes div 3)))
             document_id level 0 [])"

text \<open>
  Each round of the loop of \<open>create_parent_nodes\<close> takes at least two nodes (one when a
  single node is left) and makes one parent, so the parents are fewer than the children.
\<close>

lemma parents_loop_length:
  "parents_loop w child_nodes group_size document_id level i parent_nodes = Inr (ps, w') \<Longrightarrow>
   2 \<le> group_size \<Longrightarrow>
   length parent_nodes \<le> length ps \<and>
   2 * (length ps - length parent_nodes) \<le> (length child_nodes - i) + 1 \<and>
   (i < length child_nodes \<longrightarrow> length parent_nodes < length ps)"
proof (induction w child_nodes group_size document_id level i parent_nodes
       rule: parents_loop.induct)
  case (1 w child_nodes group_size document_id level i parent_nodes)
  have gs: "group_size \<noteq> 0" using "1.prems"(2) by simp
  show ?case
  proof (cases "i < length child_nodes")
    case False
    with gs "1.prems" show ?thesis by (simp add: parents_loop.simps)
  next
    case True
    from "1.prems"(1) gs True obtain parent_node w1 where
      mp: "make_parent w (take group_size (drop i child_nodes)) document_id level = Inr (parent_node, w1)"
      and rec: "parents_loop w1 child_nodes group_size document_id level (i + group_size)
             (parent_nodes @ [parent_node]) = Inr (ps, w')"
      by (subst (asm) parents_loop.simps) (auto split: sum.splits)
    from "1.IH"[OF gs True mp refl rec "1.prems"(2)]
    have ih: "length (parent_nodes @ [parent_node]) \<le> length ps"
      "2 * (length ps - length (parent_nodes @ [parent_node]))
         \<le> (length child_nodes - (i + group_size)) + 1" by auto
    have a: "length parent_nodes < length ps" using ih(1) by simp
    have b: "2 * (length ps - length parent_nodes) \<le> (length child_nodes - i) + 1"
      using ih True "1.prems"(2) by (simp only: length_append list.size) arith
    from a b show ?thesis by simp
  qed
qed

lemma create_parent_nodes_shorter:
  assumes "create_parent_nodes w child_nodes document_id level = Inr (ps, w')"
    and "1 < length child_nodes"
  shows "length ps < length child_nodes \<and> 0 < length ps"
proof -
  let ?g = "min 5 (max 2 (length child_nodes div 3))"
  have g: "2 \<le> ?g" by simp
  from assms have "parents_loop w child_nodes ?g document_id level 0 [] = Inr (ps, w')"
    by (simp add: create_parent_nodes_def)
  from parents_loop_length[OF this g] assms(2) show ?thesis by auto
qed

text \<open>Lines 152 to 163: the \<open>while len(current_level_nodes) > 1\<close> loop.\<close>

function build_loop ::
  "world \<Rightarrow> DocumentTree \<Rightarrow> ref list \<Rightarrow> string \<Rightarrow> int \<Rightarrow>
   error + DocumentTree \<times> ref list \<times> world" where
  "build_loop w tree current_level_nodes document_id current_level =
     (if length current_level_nodes > 1 then
        (case create_parent_nodes w current_level_nodes document_id current_level of
           Inl e \<Rightarrow> Inl e
         | Inr (parent_nodes, w1) \<Rightarrow>
             (case add_nodes w1 tree parent_nodes of
                (tree1, w2) \<Rightarrow>
                  build_loop w2 tree1 parent_nodes document_id (current_level + 1)))
      else Inr (tree, current_level_nodes, w))"
  by pat_completeness auto
termination
proof (relation "measure (\<lambda>(w, tree, current_level_nodes, document_id, current_level).
          length current_level_nodes)", goal_cases)
  case 1
  show ?case by simp
next
  case (2 w tree current_level_nodes document_id current_level x2 parent_nodes w1 x y)
  then show ?case using create_parent_nodes_shorter[of w current_level_nodes document_id current_level parent_nodes w1]
    by simp
qed

declare build_loop.simps [simp del]

text \<open>
  \<open>build_tree_structure\<close>. Both branches after the loop are modelled: the sole remaining
  node promoted to root (lines 166 to 170) and the synthetic root (lines 171 to 192).
\<close>

definition build_tree_structure ::
  "world \<Rightarrow> ref list \<Rightarrow> string \<Rightarrow> error + DocumentTree \<times> world" where
  "build_tree_structure w leaf_nodes document_id =
     (if leaf_nodes = [] then Inr (new_tree document_id, w)
      else
        (case add_nodes w (new_tree document_id) leaf_nodes of (tree, w1) \<Rightarrow>
         case build_loop w1 tree leaf_nodes document_id 1 of
           Inl e \<Rightarrow> Inl e
         | Inr (tree1, current_level_nodes, w2) \<Rightarrow>
             if length current_level_nodes = 1 then
               (let root_node = hd current_level_nodes;
                    w3 = w2\<lparr>heap := (heap w2)(root_node := (heap w2 root_node)\<lparr>nd_node_type := ROOT\<rparr>)\<rparr>;
                    w4 = w3\<lparr>heap := (heap w3)(root_node := (heap w3 root_node)\<lparr>nd_level := 0\<rparr>)\<rparr>
                in Inr (tree1\<lparr>tr_root_node_id := Some (nd_id (heap w4 root_node))\<rparr>, w4))
             else
               (case uuid4 w2 of (uid, w3) \<Rightarrow>
                case py_min (truthy_ints (map (\<lambda>node. nd_page_start (heap w3 node)) current_level_nodes)) of
                  Inl e \<Rightarrow> Inl e
                | Inr page_start \<Rightarrow>
                case py_max (truthy_ints (map (\<lambda>node. nd_page_end (heap w3 node)) current_level_nodes)) of
                  Inl e \<Rightarrow> Inl e
                | Inr page_end \<Rightarrow>
                case new_node w3
                       \<lparr> nd_id = uid, nd_content = [], nd_summary = [], nd_embedding = None,
                         nd_node_type = ROOT, nd_parent_id = None, nd_children_ids = [],
                         nd_document_id = document_id, nd_level = 0,
                         nd_page_start = Some page_start, nd_page_end = Some page_end,
                         nd_metadata =
                           [(''child_count'', MInt (int (length current_level_nodes))),
                            (''is_synthetic_root'', MBool True)] \<rparr>
                of (root_node, w4) \<Rightarrow>
                case add_node (add_children w4 root_node current_level_nodes) tree1 root_node of
                  (tree2, w5) \<Rightarrow>
                    Inr (tree2\<lparr>tr_root_node_id := Some (nd_id (heap w5 root_node))\<rparr>, w5))))"

text \<open>
  Lines 206 to 217 of \<open>process_document\<close>: pages to chunks, chunks to leaf nodes, leaf
  nodes to the tree. The outer \<open>option\<close> is the chunker's (a run that never returns).
\<close>

definition process_pages ::
  "DocumentSplitter \<Rightarrow> world \<Rightarrow> Page list \<Rightarrow> string \<Rightarrow> (error + DocumentTree \<times> world) option" where
  "process_pages self w pages document_id =
     (case split_pages_into_chunks self pages of
        None \<Rightarrow> None
      | Some (Inl e) \<Rightarrow> Some (Inl e)
      | Some (Inr chunks) \<Rightarrow>
          (case create_leaf_nodes w chunks document_id of
             (leaf_nodes, w1) \<Rightarrow> Some (build_tree_structure w1 leaf_nodes document_id)))"

text \<open>
  What a tree shows of a node: identifier, kind, parent, children, level and metadata
  keys, for every node in the dictionary's order.
\<close>

definition node_view ::
  "DocumentNode \<Rightarrow> node_id \<times> NodeType \<times> node_id option \<times> node_id list \<times> int \<times> string list" where
  "node_view node =
     (nd_id node, nd_node_type node, nd_parent_id node, nd_children_ids node, nd_level node,
      map fst (nd_metadata node))"

definition tree_view ::
  "DocumentTree \<times> world \<Rightarrow>
   node_id option \<times> (node_id \<times> NodeType \<times> node_id option \<times> node_id list \<times> int \<times> string list) list" where
  "tree_view tw = (tr_root_node_id (fst tw), map node_view (tree_values (snd tw) (fst tw)))"

text \<open>An empty store whose \<open>uuid4\<close> returns \<open>u0\<close>, \<open>u1\<close>, \<open>u2\<close> and so on.\<close>

definition test_uuid :: "nat \<Rightarrow> node_id" where
  "test_uuid n = ''u'' @ str_nat n"

definition empty_world :: "(nat \<Rightarrow> node_id) \<Rightarrow> world" where
  "empty_world uuids =
     \<lparr> heap = (\<lambda>r. sample_node [] None [] 0), next_ref = 0, uuid_source = uuids, uuid_used = 0 \<rparr>"

text \<open>The chunks of a document of \<open>n\<close> pages numbered from 1, with empty texts.\<close>

definition numbered_pages :: "nat \<Rightarrow> Page list" where
  "numbered_pages n = map (\<lambda>k. \<lparr>pg_page_number = int k, pg_text = [], pg_char_count = 0\<rparr>) [1..<Suc n]"







section \<open>Similarity ranker: \<open>EmbeddingGenerator\<close>\<close>

text \<open>\<open>np.dot\<close> of two one-dimensional arrays: a \<open>ValueError\<close> when their lengths differ.\<close>

definition np_dot :: "real list \<Rightarrow> real list \<Rightarrow> error + real" where
  "np_dot vec1 vec2 =
     (if length vec1 \<noteq> length vec2 then Inl ValueError
      else Inr (sum_list (map (\<lambda>(a, b). a * b) (zip vec1 vec2))))"

text \<open>\<open>np.linalg.norm\<close>\<close>

definition np_norm :: "real list \<Rightarrow> real" where
  "np_norm vec = sqrt (sum_list (map (\<lambda>a. a * a) vec))"

text \<open>The division of line 68, with its fault written out.\<close>

definition checked_div :: "real \<Rightarrow> real \<Rightarrow> error + real" where
  "checked_div a b = (if b = 0 then Inl ZeroDivisionError else Inr (a / b))"

text \<open>\<open>not embedding\<close> holds for \<open>None\<close> and for the empty list.\<close>

definition compute_similarity :: "real list option \<Rightarrow> real list option \<Rightarrow> error + real" where
  "compute_similarity embedding1 embedding2 =
     (case embedding1 of
        None \<Rightarrow> Inr 0
      | Some vec1 \<Rightarrow>
     (case embedding2 of
        None \<Rightarrow> Inr 0
      | Some vec2 \<Rightarrow>
          if vec1 = [] \<or> vec2 = [] then Inr 0
          else (case np_dot vec1 vec2 of
                  Inl e \<Rightarrow> Inl e
                | Inr dot_product \<Rightarrow>
                    if np_norm vec1 = 0 \<or> np_norm vec2 = 0 then Inr 0
                    else checked_div dot_product (np_norm vec1 * np_norm vec2))))"

text \<open>Lines 80 to 84: the loop over \<open>tree.nodes.values()\<close>.\<close>

fun similarities_loop ::
  "real list option \<Rightarrow> DocumentNode list \<Rightarrow> real \<Rightarrow> (DocumentNode \<times> real) list \<Rightarrow>
   error + (DocumentNode \<times> real) list" where
  "similarities_loop query_embedding [] threshold similarities = Inr similarities"
| "similarities_loop query_embedding (node # rest) threshold similarities =
     (if nd_embedding node \<noteq> None \<and> nd_embedding node \<noteq> Some [] then
        (case compute_similarity query_embedding (nd_embedding node) of
           Inl e \<Rightarrow> Inl e
         | Inr similarity \<Rightarrow>
             if similarity \<ge> threshold
             then similarities_loop query_embedding rest threshold (similarities @ [(node, similarity)])
             else similarities_loop query_embedding rest threshold similarities)
      else similarities_loop query_embedding rest threshold similarities)"

text \<open>
  \<open>similarities.sort(key=lambda x: x[1], reverse=True)\<close> is a stable sort by descending
  key: \<open>sort_key\<close> on the negated key. \<open>similarities[:top_k]\<close> is Python's slice.
\<close>

definition find_similar_nodes ::
  "real list option \<Rightarrow> world \<Rightarrow> DocumentTree \<Rightarrow> int \<Rightarrow> real \<Rightarrow> error + (DocumentNode \<times> real) list" where
  "find_similar_nodes query_embedding w tree top_k threshold =
     (if query_embedding = None \<or> query_embedding = Some [] then Inr []
      else (case similarities_loop query_embedding (tree_values w tree) threshold [] of
              Inl e \<Rightarrow> Inl e
            | Inr similarities \<Rightarrow> Inr (py_prefix (sort_key (\<lambda>x. - snd x) similarities) top_k)))"

text \<open>A sample tree of four nodes: two along the query, one across it, one with no vector.\<close>

definition rank_node :: "node_id \<Rightarrow> real list option \<Rightarrow> DocumentNode" where
  "rank_node i e = (sample_node i None [] 1)\<lparr>nd_embedding := e\<rparr>"

definition rank_world :: world where
  "rank_world =
     \<lparr> heap = (\<lambda>r. if r = 0 then rank_node ''n1'' (Some [1, 0])
                   else if r = 1 then rank_node ''n2'' (Some [0, 1])
                   else if r = 2 then rank_node ''n3'' (Some [1, 0])
                   else rank_node ''n4'' None),
       next_ref = 4, uuid_source = (\<lambda>n. []), uuid_used = 0 \<rparr>"

definition rank_tree :: DocumentTree where
  "rank_tree = (new_tree ''doc'')\<lparr>tr_nodes := [(''n1'', 0), (''n2'', 1), (''n3'', 2), (''n4'', 3)]\<rparr>"

section \<open>Verification of the chunker\<close>

lemma py_slice_range:
  "0 \<le> i \<Longrightarrow> i \<le> e \<Longrightarrow> e \<le> int (length pages) \<Longrightarrow> py_slice pages i e = pages_of_range pages (i, e)"
  by (simp add: py_slice_def pages_of_range_def slice_bound_def Let_def min_def)

lemma pages_of_range_nonempty:
  "0 \<le> i \<Longrightarrow> i < e \<Longrightarrow> e \<le> int (length pages) \<Longrightarrow> pages_of_range pages (i, e) \<noteq> []"
  by (auto simp add: pages_of_range_def)

lemma make_chunk_Inr:
  "ps \<noteq> [] \<Longrightarrow> \<exists>c. make_chunk ps = Inr c"
  by (simp add: make_chunk_def Let_def)

lemma ranges_Nil:
  "\<not> (0 \<le> i \<and> i < n \<and> 0 < mx \<and> 0 \<le> ov) \<Longrightarrow> spec_chunk_ranges n mx ov i = []"
  by (subst spec_chunk_ranges.simps) auto

lemma ranges_Cons:
  "0 \<le> i \<and> i < n \<and> 0 < mx \<and> 0 \<le> ov \<Longrightarrow>
   spec_chunk_ranges n mx ov i =
     (i, min (i + mx) n) #
       spec_chunk_ranges n mx ov (if ov > 0 then max (i + 1) (min (i + mx) n - ov) else min (i + mx) n)"
  by (subst spec_chunk_ranges.simps) (simp add: Let_def)

lemma ranges_bounds:
  "r \<in> set (spec_chunk_ranges n mx ov i) \<Longrightarrow>
     i \<le> fst r \<and> min (i + mx) n \<le> snd r \<and> 0 \<le> fst r \<and> fst r < snd r \<and> snd r \<le> n"
proof (induction n mx ov i rule: spec_chunk_ranges.induct)
  case (1 n mx ov i)
  show ?case
  proof (cases "0 \<le> i \<and> i < n \<and> 0 < mx \<and> 0 \<le> ov")
    case False
    with "1.prems" show ?thesis by (simp add: ranges_Nil)
  next
    case True
    let ?e = "min (i + mx) n"
    let ?i' = "if ov > 0 then max (i + 1) (?e - ov) else ?e"
    from "1.prems" have "r = (i, ?e) \<or> r \<in> set (spec_chunk_ranges n mx ov ?i')"
      by (simp add: ranges_Cons[OF True])
    then show ?thesis
    proof
      assume "r = (i, ?e)"
      with True show ?thesis by auto
    next
      assume a: "r \<in> set (spec_chunk_ranges n mx ov ?i')"
      have "?i' \<le> fst r \<and> min (?i' + mx) n \<le> snd r \<and> 0 \<le> fst r \<and> fst r < snd r \<and> snd r \<le> n"
        using "1.IH"[OF True refl a] .
      moreover have "i < ?i'" using True by auto
      ultimately show ?thesis by (auto simp: min_def max_def split: if_splits)
    qed
  qed
qed

lemma ranges_cover:
  "i \<le> p \<Longrightarrow> p < n \<Longrightarrow> 0 \<le> i \<Longrightarrow> 0 < mx \<Longrightarrow> 0 \<le> ov \<Longrightarrow>
     \<exists>r \<in> set (spec_chunk_ranges n mx ov i). fst r \<le> p \<and> p < snd r"
proof (induction n mx ov i rule: spec_chunk_ranges.induct)
  case (1 n mx ov i)
  let ?e = "min (i + mx) n"
  let ?i' = "if ov > 0 then max (i + 1) (?e - ov) else ?e"
  have g: "0 \<le> i \<and> i < n \<and> 0 < mx \<and> 0 \<le> ov" using "1.prems" by auto
  have unf: "spec_chunk_ranges n mx ov i = (i, ?e) # spec_chunk_ranges n mx ov ?i'"
    using ranges_Cons[OF g] .
  show ?case
  proof (cases "p < ?e")
    case True
    with "1.prems" unf show ?thesis by auto
  next
    case False
    have le: "?i' \<le> ?e" using g by auto
    have "\<exists>r \<in> set (spec_chunk_ranges n mx ov ?i'). fst r \<le> p \<and> p < snd r"
      using "1.IH"[OF g refl] False le "1.prems" by auto
    with unf show ?thesis by auto
  qed
qed

lemma ranges_sorted:
  "sorted_wrt (\<lambda>r r'. fst r < fst r' \<and> snd r \<le> snd r') (spec_chunk_ranges n mx ov i)"
proof (induction n mx ov i rule: spec_chunk_ranges.induct)
  case (1 n mx ov i)
  show ?case
  proof (cases "0 \<le> i \<and> i < n \<and> 0 < mx \<and> 0 \<le> ov")
    case False
    then show ?thesis by (simp add: ranges_Nil)
  next
    case True
    let ?e = "min (i + mx) n"
    let ?i' = "if ov > 0 then max (i + 1) (?e - ov) else ?e"
    have unf: "spec_chunk_ranges n mx ov i = (i, ?e) # spec_chunk_ranges n mx ov ?i'"
      using ranges_Cons[OF True] .
    have lt: "i < ?i'" using True by auto
    have "\<forall>r \<in> set (spec_chunk_ranges n mx ov ?i'). i < fst r \<and> ?e \<le> snd r"
    proof
      fix r assume "r \<in> set (spec_chunk_ranges n mx ov ?i')"
      from ranges_bounds[OF this] lt show "i < fst r \<and> ?e \<le> snd r"
        by (auto simp: min_def max_def split: if_splits)
    qed
    with "1.IH"[OF True refl] unf show ?thesis by simp
  qed
qed

lemma chunk_loop_ranges:
  assumes "0 < max_chunk_size self" "0 \<le> overlap_pages self" "0 \<le> i"
  shows "\<exists>cs. chunk_loop self pages i chunks = Some (Inr (chunks @ cs)) \<and>
           map Inr cs = map (\<lambda>r. make_chunk (pages_of_range pages r))
             (spec_chunk_ranges (int (length pages)) (max_chunk_size self) (overlap_pages self) i)"
  using assms
proof (induction "nat (int (length pages) - i)" arbitrary: i chunks rule: less_induct)
  case less
  let ?n = "int (length pages)"
  show ?case
  proof (cases "i < ?n")
    case False
    then show ?thesis by (subst chunk_loop.simps) (simp add: ranges_Nil)
  next
    case True
    let ?e = "min (i + max_chunk_size self) ?n"
    let ?i' = "next_index self i ?e"
    have e: "i < ?e" "?e \<le> ?n" using True less.prems by auto
    have sl: "py_slice pages i ?e = pages_of_range pages (i, ?e)"
      using py_slice_range[of i ?e pages] e less.prems by simp
    obtain c where c: "make_chunk (pages_of_range pages (i, ?e)) = Inr c"
      using make_chunk_Inr[OF pages_of_range_nonempty[of i ?e pages]] e less.prems by auto
    have i': "i < ?i'" "0 \<le> ?i'" using e less.prems by (auto simp: next_index_def)
    have "nat (?n - ?i') < nat (?n - i)" using i' True by simp
    from less.hyps[OF this less.prems(1,2) i'(2), of "chunks @ [c]"]
    obtain cs where cs: "chunk_loop self pages ?i' (chunks @ [c]) = Some (Inr ((chunks @ [c]) @ cs))"
      "map Inr cs = map (\<lambda>r. make_chunk (pages_of_range pages r))
             (spec_chunk_ranges ?n (max_chunk_size self) (overlap_pages self) ?i')" by blast
    have unf: "spec_chunk_ranges ?n (max_chunk_size self) (overlap_pages self) i
       = (i, ?e) # spec_chunk_ranges ?n (max_chunk_size self) (overlap_pages self) ?i'"
      using ranges_Cons[of i ?n "max_chunk_size self" "overlap_pages self"] True less.prems
      by (simp add: next_index_def)
    have "chunk_loop self pages i chunks = Some (Inr (chunks @ (c # cs)))"
      using True sl c cs(1) by (subst chunk_loop.simps) (simp add: Let_def)
    moreover have "map Inr (c # cs) = map (\<lambda>r. make_chunk (pages_of_range pages r))
             (spec_chunk_ranges ?n (max_chunk_size self) (overlap_pages self) i)"
      using unf c cs(2) by simp
    ultimately show ?thesis by blast
  qed
qed

lemma chunk_loop_min_irrelevant_Some:
  assumes a: "chunk_loop self pages i chunks = Some y"
  shows "chunk_loop (self\<lparr>min_chunk_size := m\<rparr>) pages i chunks = Some y"
proof (rule chunk_loop.raw_induct
    [where P = "\<lambda>self pages i chunks y.
       chunk_loop (self\<lparr>min_chunk_size := m\<rparr>) pages i chunks = Some y", OF _ a])
  fix cl :: "DocumentSplitter \<Rightarrow> Page list \<Rightarrow> int \<Rightarrow> Chunk list \<Rightarrow> (error + Chunk list) option"
  fix self pages i chunks y
  assume IH: "\<And>self pages i chunks y. cl self pages i chunks = Some y \<Longrightarrow>
     chunk_loop (self\<lparr>min_chunk_size := m\<rparr>) pages i chunks = Some y"
  assume body: "(if i < int (length pages)
      then let chunk_end = min (i + max_chunk_size self) (int (length pages))
           in case make_chunk (py_slice pages i chunk_end) of
              Inl e \<Rightarrow> Some (Inl e)
              | Inr chunk \<Rightarrow> cl self pages (next_index self i chunk_end) (chunks @ [chunk])
      else Some (Inr chunks)) = Some y"
  show "chunk_loop (self\<lparr>min_chunk_size := m\<rparr>) pages i chunks = Some y"
  proof (cases "i < int (length pages)")
    case False
    with body show ?thesis by (subst chunk_loop.simps) simp
  next
    case True
    let ?e = "min (i + max_chunk_size self) (int (length pages))"
    show ?thesis
    proof (cases "make_chunk (py_slice pages i ?e)")
      case (Inl e)
      with True body show ?thesis
        by (subst chunk_loop.simps) (simp add: Let_def)
    next
      case (Inr c)
      with True body have "cl self pages (next_index self i ?e) (chunks @ [c]) = Some y"
        by (simp add: Let_def)
      moreover have "next_index (self\<lparr>min_chunk_size := m\<rparr>) i ?e = next_index self i ?e"
        by (simp add: next_index_def)
      ultimately show ?thesis using IH Inr True
        by (subst chunk_loop.simps) (simp add: Let_def)
    qed
  qed
qed

lemma chunk_loop_min_irrelevant:
  "chunk_loop (self\<lparr>min_chunk_size := m\<rparr>) pages i chunks = chunk_loop self pages i chunks"
proof (cases "chunk_loop self pages i chunks")
  case (Some y)
  then show ?thesis by (simp add: chunk_loop_min_irrelevant_Some)
next
  case None
  show ?thesis
  proof (cases "chunk_loop (self\<lparr>min_chunk_size := m\<rparr>) pages i chunks")
    case None': None
    with None show ?thesis by simp
  next
    case (Some y)
    from chunk_loop_min_irrelevant_Some[OF this, of "min_chunk_size self"] None
    show ?thesis by simp
  qed
qed

text \<open>
  A chunk built from the pages of an index range: its entries, read off the pages.
\<close>

lemma pages_of_range_nth:
  "0 \<le> s \<Longrightarrow> s < e \<Longrightarrow> e \<le> int (length pages) \<Longrightarrow>
   pages_of_range pages (s, e) = map (\<lambda>j. pages ! j) [nat s..<nat e]"
  unfolding pages_of_range_def by (auto intro!: nth_equalityI)

lemma make_chunk_range:
  assumes "0 \<le> s" "s < e" "e \<le> int (length pages)"
    and "Inr c = make_chunk (pages_of_range pages (s, e))"
  shows "ck_page_start c = pg_page_number (pages ! nat s) \<and>
         ck_page_end c = pg_page_number (pages ! nat (e - 1)) \<and>
         ck_page_count c = e - s \<and>
         ck_text c = join ''\<newline>\<newline>'' (map (\<lambda>j. pg_text (pages ! j)) [nat s..<nat e]) \<and>
         ck_char_count c = int (length (ck_text c))"
proof -
  have lt: "nat s < nat e" using assms(1,2) by linarith
  have ne: "[nat s..<nat e] \<noteq> []" unfolding upt_eq_Nil_conv using lt by linarith
  have e1: "nat e - Suc 0 = nat (e - 1)" by linarith
  have c: "c = \<lparr> ck_page_start = pg_page_number (pages ! nat s),
                 ck_page_end = pg_page_number (pages ! (nat e - 1)),
                 ck_text = join ''\<newline>\<newline>'' (map (\<lambda>j. pg_text (pages ! j)) [nat s..<nat e]),
                 ck_char_count = int (length (join ''\<newline>\<newline>'' (map (\<lambda>j. pg_text (pages ! j)) [nat s..<nat e]))),
                 ck_page_count = int (length [nat s..<nat e]) \<rparr>"
    using assms(4) ne lt
    by (simp add: pages_of_range_nth[OF assms(1,2,3)] make_chunk_def Let_def hd_map last_map
        comp_def)
  show ?thesis using assms(1,2) by (simp add: c e1)
qed

text \<open>
  Claim C5. For every non-empty page sequence and parameters \<open>max_chunk_size > 0\<close>,
  \<open>overlap_pages \<ge> 0\<close>, \<open>split_pages_into_chunks\<close> returns one chunk for each of the
  specification's index ranges, in their order (the range starting at \<open>i\<close> is
  \<open>[i, min (i + max_chunk_size) total)\<close>, the next start is \<open>max (i + 1) (chunk_end - overlap_pages)\<close>
  when \<open>overlap_pages > 0\<close>, else \<open>chunk_end\<close>). The chunk of the range \<open>[s, e)\<close> holds
  exactly the pages of that range: its \<open>page_start\<close> and \<open>page_end\<close> are the page numbers of
  the pages at \<open>s\<close> and \<open>e - 1\<close>, its \<open>page_count\<close> is \<open>e - s\<close>, its text is the texts of
  the pages at \<open>s\<close>, ..., \<open>e - 1\<close> joined in this order by a blank line, and its
  \<open>char_count\<close> is the length of that text. The ranges cover every page index at least
  once, and they are listed in page order (starts strictly increasing, ends non-decreasing,
  every range non-empty and within the sequence).
\<close>

theorem split_cover:
  assumes "pages \<noteq> []" "0 < max_chunk_size self" "0 \<le> overlap_pages self"
  shows "\<exists>cs. split_pages_into_chunks self pages = Some (Inr cs) \<and>
     list_all2 (\<lambda>c r.
          ck_page_start c = pg_page_number (pages ! nat (fst r)) \<and>
          ck_page_end c = pg_page_number (pages ! nat (snd r - 1)) \<and>
          ck_page_count c = snd r - fst r \<and>
          ck_text c = join ''\<newline>\<newline>'' (map (\<lambda>j. pg_text (pages ! j)) [nat (fst r)..<nat (snd r)]) \<and>
          ck_char_count c = int (length (ck_text c)))
        cs (spec_chunk_ranges (int (length pages)) (max_chunk_size self) (overlap_pages self) 0) \<and>
     (\<forall>p. 0 \<le> p \<and> p < int (length pages) \<longrightarrow>
        (\<exists>r \<in> set (spec_chunk_ranges (int (length pages)) (max_chunk_size self) (overlap_pages self) 0).
           fst r \<le> p \<and> p < snd r)) \<and>
     sorted_wrt (\<lambda>r r'. fst r < fst r' \<and> snd r \<le> snd r')
        (spec_chunk_ranges (int (length pages)) (max_chunk_size self) (overlap_pages self) 0) \<and>
     (\<forall>r \<in> set (spec_chunk_ranges (int (length pages)) (max_chunk_size self) (overlap_pages self) 0).
        0 \<le> fst r \<and> fst r < snd r \<and> snd r \<le> int (length pages))"
proof -
  let ?R = "spec_chunk_ranges (int (length pages)) (max_chunk_size self) (overlap_pages self) 0"
  let ?P = "\<lambda>c r.
          ck_page_start c = pg_page_number (pages ! nat (fst r)) \<and>
          ck_page_end c = pg_page_number (pages ! nat (snd r - 1)) \<and>
          ck_page_count c = snd r - fst r \<and>
          ck_text c = join ''\<newline>\<newline>'' (map (\<lambda>j. pg_text (pages ! j)) [nat (fst r)..<nat (snd r)]) \<and>
          ck_char_count c = int (length (ck_text c))"
  from chunk_loop_ranges[OF assms(2,3), of 0 pages "[]"]
  obtain cs where cs: "chunk_loop self pages 0 [] = Some (Inr cs)"
    "map Inr cs = map (\<lambda>r. make_chunk (pages_of_range pages r)) ?R" by auto
  have 1: "split_pages_into_chunks self pages = Some (Inr cs)"
    using assms(1) cs(1) by (simp add: split_pages_into_chunks_def)
  have 2: "\<forall>p. 0 \<le> p \<and> p < int (length pages) \<longrightarrow> (\<exists>r \<in> set ?R. fst r \<le> p \<and> p < snd r)"
    using ranges_cover[of 0 _ "int (length pages)" "max_chunk_size self" "overlap_pages self"] assms(2,3)
    by blast
  have 3: "\<forall>r \<in> set ?R. 0 \<le> fst r \<and> fst r < snd r \<and> snd r \<le> int (length pages)"
    using ranges_bounds by blast
  have len: "length cs = length ?R" using cs(2) by (metis length_map)
  have 4: "list_all2 ?P cs ?R"
  proof (rule list_all2_all_nthI[OF len])
    fix k assume k: "k < length cs"
    then have kr: "?R ! k \<in> set ?R" using len by simp
    have "map Inr cs ! k = map (\<lambda>r. make_chunk (pages_of_range pages r)) ?R ! k"
      using cs(2) by simp
    then have eq: "Inr (cs ! k) = make_chunk (pages_of_range pages (fst (?R ! k), snd (?R ! k)))"
      using k len by simp
    from 3 kr have b: "0 \<le> fst (?R ! k)" "fst (?R ! k) < snd (?R ! k)"
      "snd (?R ! k) \<le> int (length pages)" by auto
    from make_chunk_range[OF b eq] show "?P (cs ! k) (?R ! k)" .
  qed
  from 1 4 2 ranges_sorted 3 show ?thesis by blast
qed

lemma R4310: "spec_chunk_ranges 4 3 1 0 = [(0,3),(2,4),(3,4)]"
  by (simp add: spec_chunk_ranges.simps)

text \<open>
  The theorem of C5 at four pages, \<open>max_chunk_size = 3\<close> and \<open>overlap_pages = 1\<close>: the
  chunks hold the pages 1 to 3, 3 to 4, and 4.
\<close>

theorem split_cover_witness:
  "\<exists>cs. split_pages_into_chunks \<lparr>max_chunk_size = 3, min_chunk_size = 1, overlap_pages = 1\<rparr>
           [page1, page2, page3, page4] = Some (Inr cs) \<and>
     map chunk_view cs =
       [(1, 3, ''a\<newline>\<newline>bc\<newline>\<newline>d'', 8, 3),
        (3, 4, ''d\<newline>\<newline>ef'', 5, 2),
        (4, 4, ''ef'', 2, 1)]"
  using split_cover[of "[page1, page2, page3, page4]"
      "\<lparr>max_chunk_size = 3, min_chunk_size = 1, overlap_pages = 1\<rparr>"]
  by (auto simp: R4310 list_all2_Cons2 chunk_view_def upt_conv_Cons
      page1_def page2_def page3_def page4_def)

text \<open>
  Claim C9. For every finite page sequence and parameters \<open>max_chunk_size > 0\<close>,
  \<open>overlap_pages \<ge> 0\<close>, the scan index strictly increases on every iteration of the loop
  of \<open>split_pages_into_chunks\<close>, and the loop terminates with a chunk list (no hypothesis
  relates \<open>overlap_pages\<close> to \<open>max_chunk_size\<close>, so \<open>overlap_pages \<ge> max_chunk_size\<close> is
  included).
\<close>

theorem chunker_terminates:
  assumes "0 < max_chunk_size self" "0 \<le> overlap_pages self"
  shows "(\<forall>i. 0 \<le> i \<and> i < int (length pages) \<longrightarrow>
            i < next_index self i (min (i + max_chunk_size self) (int (length pages)))) \<and>
         (\<exists>cs. split_pages_into_chunks self pages = Some (Inr cs))"
proof -
  have "\<exists>cs. split_pages_into_chunks self pages = Some (Inr cs)"
  proof (cases "pages = []")
    case True
    then show ?thesis by (simp add: split_pages_into_chunks_def)
  next
    case False
    from chunk_loop_ranges[OF assms, of 0 pages "[]"] False show ?thesis
      by (auto simp: split_pages_into_chunks_def)
  qed
  moreover have "\<forall>i. 0 \<le> i \<and> i < int (length pages) \<longrightarrow>
            i < next_index self i (min (i + max_chunk_size self) (int (length pages)))"
    using assms by (auto simp: next_index_def)
  ultimately show ?thesis by blast
qed

text \<open>The theorem of C9 at \<open>overlap_pages = 5 \<ge> max_chunk_size = 2\<close>.\<close>

theorem chunker_terminates_witness:
  "next_index \<lparr>max_chunk_size = 2, min_chunk_size = 1, overlap_pages = 5\<rparr> 1 3 = 2 \<and>
   (\<exists>cs. split_pages_into_chunks \<lparr>max_chunk_size = 2, min_chunk_size = 1, overlap_pages = 5\<rparr>
      [page1, page2, page3] = Some (Inr cs))"
  using chunker_terminates[of "\<lparr>max_chunk_size = 2, min_chunk_size = 1, overlap_pages = 5\<rparr>" "[page1, page2, page3]"]
  by (simp add: next_index_def)

lemma split_small: "split_pages_into_chunks \<lparr>max_chunk_size = 2, min_chunk_size = 5, overlap_pages = 0\<rparr>
          [page1, page2, page3] = Some (Inr [
       \<lparr>ck_page_start = 1, ck_page_end = 2, ck_text = ''a\<newline>\<newline>bc'', ck_char_count = 5, ck_page_count = 2\<rparr>,
       \<lparr>ck_page_start = 3, ck_page_end = 3, ck_text = ''d'', ck_char_count = 1, ck_page_count = 1\<rparr>])"
  by (simp add: split_pages_into_chunks_def chunk_loop.simps make_chunk_def py_slice_def slice_bound_def
      next_index_def page1_def page2_def page3_def Let_def)

text \<open>
  Claim C10. \<open>min_chunk_size\<close> has no observable effect: two runs of
  \<open>split_pages_into_chunks\<close> that differ only in \<open>min_chunk_size\<close> give the same result
  (the same chunks, the same exception, or both run forever); in particular with
  \<open>min_chunk_size = 5\<close> the trailing chunk of three pages cut by two is a single page.
\<close>

theorem min_chunk_size_unused:
  "(\<forall>self pages m. split_pages_into_chunks (self\<lparr>min_chunk_size := m\<rparr>) pages
        = split_pages_into_chunks self pages) \<and>
   (\<exists>cs. split_pages_into_chunks \<lparr>max_chunk_size = 2, min_chunk_size = 5, overlap_pages = 0\<rparr>
          [page1, page2, page3] = Some (Inr cs) \<and> ck_page_count (last cs) = 1)"
  by (simp add: split_pages_into_chunks_def chunk_loop_min_irrelevant split_small[unfolded split_pages_into_chunks_def, simplified])

section \<open>Verification of the navigator\<close>

text \<open>
  Claim C8. For every node identifier that the lookup does not resolve, every navigation
  operation (parent, children, next and previous sibling, breadcrumb, next and previous leaf)
  returns an absent result or an empty list; each of them returns, and none raises.
\<close>

theorem navigator_unknown_id:
  assumes "db node_id = None"
  shows "navigate_to_parent db node_id = None \<and>
         navigate_to_children db node_id = [] \<and>
         navigate_to_next_sibling db node_id = None \<and>
         navigate_to_previous_sibling db node_id = None \<and>
         get_breadcrumb_path db node_id = Some [] \<and>
         find_next_leaf_node db node_id = Some None \<and>
         find_previous_leaf_node db node_id = Some None"
  using assms
  by (simp add: navigate_to_parent_def navigate_to_children_def navigate_to_next_sibling_def
      navigate_to_previous_sibling_def get_breadcrumb_path_def breadcrumb_loop.simps
      find_next_leaf_node_def find_previous_leaf_node_def)

text \<open>The theorem of C8 at the sample store and an identifier it does not hold.\<close>

theorem navigator_unknown_id_witness:
  "sample_store ''zz'' = None \<and>
   navigate_to_parent sample_store ''zz'' = None \<and>
   navigate_to_children sample_store ''zz'' = [] \<and>
   navigate_to_next_sibling sample_store ''zz'' = None \<and>
   navigate_to_previous_sibling sample_store ''zz'' = None \<and>
   get_breadcrumb_path sample_store ''zz'' = Some [] \<and>
   find_next_leaf_node sample_store ''zz'' = Some None \<and>
   find_previous_leaf_node sample_store ''zz'' = Some None"
proof -
  have h: "sample_store ''zz'' = None" by (simp add: sample_store_def)
  from h navigator_unknown_id[of sample_store "''zz''", OF h] show ?thesis by simp
qed

text \<open>
  Claim C4 fails on the code. In the sample tree the leaf \<open>b1\<close> is the first child of \<open>B\<close>,
  and \<open>B\<close> has the previous sibling \<open>A\<close> whose last leaf is \<open>a2\<close>. The specification's
  upward walk returns \<open>a2\<close>, and \<open>find_next_leaf_node\<close> of \<open>a2\<close> is \<open>b1\<close>; but
  \<open>find_previous_leaf_node\<close> of \<open>b1\<close> is absent: it looks at the node's own previous sibling
  and never at an ancestor's.
\<close>

theorem find_previous_leaf_not_mirror:
  "find_previous_leaf_node sample_store ''b1'' = Some None \<and>
   spec_previous_leaf sample_store ''b1'' = Some (Some (sample_node ''a2'' (Some ''A'') [] 2)) \<and>
   find_next_leaf_node sample_store ''a2'' = Some (Some (sample_node ''b1'' (Some ''B'') [] 2))"
  by (simp add: find_previous_leaf_node_def spec_previous_leaf_def spec_previous_leaf_loop.simps
       find_next_leaf_node_def next_leaf_loop.simps
       navigate_to_previous_sibling_def navigate_to_next_sibling_def navigate_to_parent_def
       find_last_leaf_in_subtree.simps find_first_leaf_in_subtree.simps
       sample_store_def sample_node_def is_leaf_def)

section \<open>Verification of the similarity ranker\<close>

text \<open>
  Claim C7, amended. For every pair of vectors where either is absent or empty, and for
  every pair of vectors of equal length where either has zero magnitude,
  \<open>compute_similarity\<close> returns exactly \<open>0\<close>; and for every pair of vectors whatsoever
  the division by the product of the norms is never executed with a zero divisor (no
  division fault is reachable). Floats are modelled as reals.
\<close>

theorem compute_similarity_degenerate:
  "((embedding1 = None \<or> embedding1 = Some [] \<or> embedding2 = None \<or> embedding2 = Some [] \<or>
     (\<exists>vec1 vec2. embedding1 = Some vec1 \<and> embedding2 = Some vec2 \<and>
        length vec1 = length vec2 \<and> (np_norm vec1 = 0 \<or> np_norm vec2 = 0)))
    \<longrightarrow> compute_similarity embedding1 embedding2 = Inr 0) \<and>
   compute_similarity embedding1 embedding2 \<noteq> Inl ZeroDivisionError"
  by (auto simp: compute_similarity_def np_dot_def checked_div_def split: option.splits)

text \<open>The theorem of C7 at a zero vector and a vector of the same length.\<close>

theorem compute_similarity_degenerate_witness:
  "np_norm [0, 0] = 0 \<and> compute_similarity (Some [0, 0]) (Some [1, 2]) = Inr 0 \<and>
   compute_similarity (Some [0, 0]) (Some [1, 2]) \<noteq> Inl ZeroDivisionError"
proof -
  have n: "np_norm [0, 0] = 0" by (simp add: np_norm_def)
  from n compute_similarity_degenerate[of "Some [0, 0]" "Some [1, 2]"] show ?thesis by simp
qed

text \<open>
  Claim C7 as stated fails where the two vectors have different lengths: \<open>np.dot\<close> raises
  \<open>ValueError\<close> before the zero-norm guard is reached, so a zero-magnitude vector against
  a vector of another length does not give \<open>0.0\<close>.
\<close>

theorem compute_similarity_shape_counterexample:
  "np_norm [0] = 0 \<and> compute_similarity (Some [0]) (Some [1, 2]) = Inl ValueError \<and>
   compute_similarity (Some [0]) (Some [1, 2]) \<noteq> Inr 0"
  by (simp add: np_norm_def compute_similarity_def np_dot_def)

lemma similarities_loop_props:
  assumes "similarities_loop q nodes th acc = Inr cands"
  shows "\<exists>new. cands = acc @ new \<and> subseq (map fst new) nodes \<and>
     (\<forall>x \<in> set new. snd x \<ge> th \<and> nd_embedding (fst x) \<noteq> None \<and> nd_embedding (fst x) \<noteq> Some [] \<and>
         compute_similarity q (nd_embedding (fst x)) = Inr (snd x))"
  using assms
proof (induction nodes arbitrary: acc)
  case Nil
  then show ?case by simp
next
  case (Cons node rest)
  show ?case
  proof (cases "nd_embedding node \<noteq> None \<and> nd_embedding node \<noteq> Some []")
    case False
    with Cons.prems have "similarities_loop q rest th acc = Inr cands" by auto
    from Cons.IH[OF this] show ?thesis by auto
  next
    case True
    from Cons.prems True obtain s where s: "compute_similarity q (nd_embedding node) = Inr s"
      by (cases "compute_similarity q (nd_embedding node)") auto
    show ?thesis
    proof (cases "s \<ge> th")
      case False
      with Cons.prems True s have "similarities_loop q rest th acc = Inr cands" by simp
      from Cons.IH[OF this] show ?thesis by auto
    next
      case ge: True
      with Cons.prems True s have "similarities_loop q rest th (acc @ [(node, s)]) = Inr cands" by simp
      from Cons.IH[OF this] obtain new where new: "cands = (acc @ [(node, s)]) @ new"
        "subseq (map fst new) rest"
        "\<forall>x \<in> set new. snd x \<ge> th \<and> nd_embedding (fst x) \<noteq> None \<and> nd_embedding (fst x) \<noteq> Some [] \<and>
         compute_similarity q (nd_embedding (fst x)) = Inr (snd x)" by blast
      have "cands = acc @ ((node, s) # new)" using new(1) by simp
      moreover have "subseq (map fst ((node, s) # new)) (node # rest)" using new(2) by simp
      moreover have "\<forall>x \<in> set ((node, s) # new). snd x \<ge> th \<and> nd_embedding (fst x) \<noteq> None \<and>
         nd_embedding (fst x) \<noteq> Some [] \<and> compute_similarity q (nd_embedding (fst x)) = Inr (snd x)"
        using new(3) True s ge by simp
      ultimately show ?thesis by blast
    qed
  qed
qed

lemma similarities_loop_total:
  assumes "\<forall>node \<in> set nodes. \<forall>v. nd_embedding node = Some v \<longrightarrow> v = [] \<or> length v = length qv"
  shows "\<exists>cands. similarities_loop (Some qv) nodes th acc = Inr cands"
  using assms
proof (induction nodes arbitrary: acc)
  case Nil
  then show ?case by simp
next
  case (Cons node rest)
  have rest: "\<And>acc. \<exists>cands. similarities_loop (Some qv) rest th acc = Inr cands"
    using Cons by simp
  show ?case
  proof (cases "nd_embedding node \<noteq> None \<and> nd_embedding node \<noteq> Some []")
    case False
    then show ?thesis using rest by auto
  next
    case True
    then obtain v where v: "nd_embedding node = Some v" "v \<noteq> []" by auto
    with Cons.prems have len: "length v = length qv" by auto
    have "\<exists>s. compute_similarity (Some qv) (Some v) = Inr s"
      using len by (auto simp: compute_similarity_def np_dot_def checked_div_def)
    then obtain s where "compute_similarity (Some qv) (nd_embedding node) = Inr s" using v by auto
    then show ?thesis using True rest by auto
  qed
qed

lemma sorted_desc_sort_key:
  "sorted_wrt (\<lambda>a b. snd a \<ge> snd b) (sort_key (\<lambda>x. - snd x) (xs :: ('a \<times> real) list))"
proof -
  have "sorted (map (\<lambda>x. - snd x) (sort_key (\<lambda>x. - snd x) xs))" by (rule sorted_sort_key)
  then show ?thesis by (simp add: sorted_map sorted_wrt_iff_nth_less)
qed

lemma sorted_wrt_take: "sorted_wrt P xs \<Longrightarrow> sorted_wrt P (take n xs)"
  by (metis append_take_drop_id sorted_wrt_append)

lemma prefix_filter_take: "prefix (filter P (take n xs)) (filter P xs)"
  by (metis append_take_drop_id filter_append prefixI)

lemma py_prefix_take: "\<exists>n. py_prefix xs k = take n xs"
  by (auto simp: py_prefix_def)

lemma py_prefix_length: "0 \<le> k \<Longrightarrow> int (length (py_prefix xs k)) \<le> k"
  by (simp add: py_prefix_def slice_bound_def)

text \<open>
  Claim C6, amended. For every query vector, tree, threshold and \<open>top_k\<close>, a list that
  \<open>find_similar_nodes\<close> returns is sorted by descending similarity; for \<open>top_k \<ge> 0\<close> its
  length never exceeds \<open>top_k\<close>; no result has a similarity below the threshold; only nodes
  of the tree carrying a non-absent (and non-empty) embedding occur, each with its cosine
  similarity; and results of equal similarity keep the enumeration order of the candidates
  (for each similarity value, the results with that value are a prefix of the candidates
  with that value, the candidates being listed in the order of \<open>tree.nodes.values()\<close>).
  The call returns whenever the embeddings have the length of the query.
\<close>

theorem find_similar_nodes_ranking:
  "(\<forall>res. find_similar_nodes q w tree top_k th = Inr res \<longrightarrow>
      sorted_wrt (\<lambda>a b. snd a \<ge> snd b) res \<and>
      (0 \<le> top_k \<longrightarrow> int (length res) \<le> top_k) \<and>
      (\<forall>x \<in> set res. snd x \<ge> th \<and> fst x \<in> set (tree_values w tree) \<and>
          nd_embedding (fst x) \<noteq> None \<and> nd_embedding (fst x) \<noteq> Some [] \<and>
          compute_similarity q (nd_embedding (fst x)) = Inr (snd x)) \<and>
      (\<forall>cands. similarities_loop q (tree_values w tree) th [] = Inr cands \<longrightarrow>
          subseq (map fst cands) (tree_values w tree) \<and>
          (\<forall>s. prefix (filter (\<lambda>x. snd x = s) res) (filter (\<lambda>x. snd x = s) cands)))) \<and>
   ((\<forall>node \<in> set (tree_values w tree). \<forall>v qv. nd_embedding node = Some v \<and> q = Some qv \<longrightarrow>
        v = [] \<or> qv = [] \<or> length v = length qv) \<longrightarrow>
    (\<exists>res. find_similar_nodes q w tree top_k th = Inr res))"
  (is "?A \<and> ?B")
proof (rule conjI)
  show ?A
  proof (intro allI impI)
  fix res assume r: "find_similar_nodes q w tree top_k th = Inr res"
  let ?vals = "tree_values w tree"
  show "sorted_wrt (\<lambda>a b. snd a \<ge> snd b) res \<and>
      (0 \<le> top_k \<longrightarrow> int (length res) \<le> top_k) \<and>
      (\<forall>x \<in> set res. snd x \<ge> th \<and> fst x \<in> set ?vals \<and>
          nd_embedding (fst x) \<noteq> None \<and> nd_embedding (fst x) \<noteq> Some [] \<and>
          compute_similarity q (nd_embedding (fst x)) = Inr (snd x)) \<and>
      (\<forall>cands. similarities_loop q ?vals th [] = Inr cands \<longrightarrow>
          subseq (map fst cands) ?vals \<and>
          (\<forall>s. prefix (filter (\<lambda>x. snd x = s) res) (filter (\<lambda>x. snd x = s) cands)))"
  proof (cases "q = None \<or> q = Some []")
    case True
    with r have "res = []" by (auto simp: find_similar_nodes_def)
    then show ?thesis using similarities_loop_props[of q ?vals th "[]"] by auto
  next
    case False
    with r obtain cands where c: "similarities_loop q ?vals th [] = Inr cands"
      and res: "res = py_prefix (sort_key (\<lambda>x. - snd x) cands) top_k"
      by (auto simp: find_similar_nodes_def split: sum.splits)
    from similarities_loop_props[OF c] have sub: "subseq (map fst cands) ?vals"
      and el: "\<forall>x \<in> set cands. snd x \<ge> th \<and> nd_embedding (fst x) \<noteq> None \<and>
         nd_embedding (fst x) \<noteq> Some [] \<and> compute_similarity q (nd_embedding (fst x)) = Inr (snd x)"
      by auto
    obtain n where n: "res = take n (sort_key (\<lambda>x. - snd x) cands)"
      using py_prefix_take res by blast
    have 1: "sorted_wrt (\<lambda>a b. snd a \<ge> snd b) res"
      unfolding n by (rule sorted_wrt_take[OF sorted_desc_sort_key])
    have 2: "0 \<le> top_k \<longrightarrow> int (length res) \<le> top_k"
      unfolding res using py_prefix_length by blast
    have sub_set: "set res \<subseteq> set cands"
      unfolding n using set_take_subset[of n "sort_key (\<lambda>x. - snd x) cands"] by simp
    have mem: "\<And>x. x \<in> set cands \<Longrightarrow> fst x \<in> set ?vals"
    proof -
      fix x assume "x \<in> set cands"
      then have "fst x \<in> set (map fst cands)" by simp
      from list_emb_set[OF sub this] show "fst x \<in> set ?vals" by auto
    qed
    have 3: "\<forall>x \<in> set res. snd x \<ge> th \<and> fst x \<in> set ?vals \<and>
          nd_embedding (fst x) \<noteq> None \<and> nd_embedding (fst x) \<noteq> Some [] \<and>
          compute_similarity q (nd_embedding (fst x)) = Inr (snd x)"
      using sub_set el mem by blast
    have 4: "\<forall>s. prefix (filter (\<lambda>x. snd x = s) res) (filter (\<lambda>x. snd x = s) cands)"
    proof
      fix s
      have "filter (\<lambda>x. - snd x = - s) (sort_key (\<lambda>x. - snd x) cands)
            = filter (\<lambda>x. - snd x = - s) cands" by (rule sort_key_stable)
      then have "filter (\<lambda>x. snd x = s) (sort_key (\<lambda>x. - snd x) cands)
            = filter (\<lambda>x. snd x = s) cands" by simp
      with prefix_filter_take[of "\<lambda>x. snd x = s" n "sort_key (\<lambda>x. - snd x) cands"]
      show "prefix (filter (\<lambda>x. snd x = s) res) (filter (\<lambda>x. snd x = s) cands)"
        unfolding n by simp
    qed
    show ?thesis using 1 2 3 4 c sub by auto
  qed
  qed
next
  show ?B
  proof
  assume d: "\<forall>node \<in> set (tree_values w tree). \<forall>v qv. nd_embedding node = Some v \<and> q = Some qv \<longrightarrow>
        v = [] \<or> qv = [] \<or> length v = length qv"
  show "\<exists>res. find_similar_nodes q w tree top_k th = Inr res"
  proof (cases "q = None \<or> q = Some []")
    case True
    then show ?thesis by (auto simp: find_similar_nodes_def)
  next
    case False
    then obtain qv where qv: "q = Some qv" "qv \<noteq> []" by auto
    with d have "\<forall>node \<in> set (tree_values w tree). \<forall>v. nd_embedding node = Some v \<longrightarrow>
       v = [] \<or> length v = length qv" by auto
    from similarities_loop_total[OF this, of th "[]"] qv show ?thesis
      by (auto simp: find_similar_nodes_def)
  qed
  qed
qed

text \<open>The theorem of C6 on the sample tree, with a tie between \<open>n1\<close> and \<open>n3\<close> and \<open>top_k = 1\<close>.\<close>

theorem find_similar_nodes_ranking_witness:
  "find_similar_nodes (Some [1, 0]) rank_world rank_tree 1 (1/2)
     = Inr [(rank_node ''n1'' (Some [1, 0]), 1)] \<and>
   int (length [(rank_node ''n1'' (Some [1, 0]), 1 :: real)]) \<le> 1 \<and>
   prefix (filter (\<lambda>x. snd x = 1) [(rank_node ''n1'' (Some [1, 0]), 1 :: real)])
     (filter (\<lambda>x. snd x = 1)
        [(rank_node ''n1'' (Some [1, 0]), 1), (rank_node ''n3'' (Some [1, 0]), 1)])"
proof -
  have ev: "find_similar_nodes (Some [1, 0]) rank_world rank_tree 1 (1/2)
     = Inr [(rank_node ''n1'' (Some [1, 0]), 1)]"
    by (simp add: find_similar_nodes_def tree_values_def rank_world_def rank_tree_def new_tree_def
      rank_node_def sample_node_def compute_similarity_def np_dot_def np_norm_def checked_div_def
      py_prefix_def slice_bound_def)
  have lp: "similarities_loop (Some [1, 0]) (tree_values rank_world rank_tree) (1/2) []
     = Inr [(rank_node ''n1'' (Some [1, 0]), 1), (rank_node ''n3'' (Some [1, 0]), 1)]"
    by (simp add: tree_values_def rank_world_def rank_tree_def new_tree_def
      rank_node_def sample_node_def compute_similarity_def np_dot_def np_norm_def checked_div_def)
  from find_similar_nodes_ranking[of "Some [1, 0]" rank_world rank_tree 1 "1/2"] ev lp
  show ?thesis by simp
qed

text \<open>
  Claim C6 as stated fails for a negative \<open>top_k\<close>: \<open>similarities[:-1]\<close> drops the last
  of the two candidates and returns one result, more than \<open>top_k = -1\<close>.
\<close>

theorem find_similar_nodes_negative_top_k:
  "find_similar_nodes (Some [1, 0]) rank_world rank_tree (- 1) (1/2)
     = Inr [(rank_node ''n1'' (Some [1, 0]), 1)] \<and>
   \<not> int (length [(rank_node ''n1'' (Some [1, 0]), 1 :: real)]) \<le> - 1"
  by (simp add: find_similar_nodes_def tree_values_def rank_world_def rank_tree_def new_tree_def
      rank_node_def sample_node_def compute_similarity_def np_dot_def np_norm_def checked_div_def
      py_prefix_def slice_bound_def)

section \<open>Verification of the tree builder\<close>

























text \<open>
  Claim C2 fails on the code. 20 pages with \<open>max_chunk_size = 10\<close> and \<open>overlap_pages = 0\<close>
  give two chunks; the two leaves \<open>u0\<close> and \<open>u1\<close> have no children, yet their kind in
  the built tree is \<open>ROOT\<close>, not \<open>LEAF\<close>: \<open>add_node\<close> marks every node that has no parent
  yet as root, and every node is added before it gets its parent.
\<close>

theorem leaves_get_kind_root:
  "map_option (map_sum id tree_view)
     (process_pages \<lparr>max_chunk_size = 10, min_chunk_size = 1, overlap_pages = 0\<rparr>
        (empty_world test_uuid) (numbered_pages 20) ''doc'')
   = Some (Inr (Some ''u2'',
        [(''u0'', ROOT, Some ''u2'', [], 2, [''char_count'', ''page_count'']),
         (''u1'', ROOT, Some ''u2'', [], 2, [''char_count'', ''page_count'']),
         (''u2'', ROOT, None, [''u0'', ''u1''], 0, [''child_count'', ''total_pages''])]))"
  by code_simp

text \<open>
  Claim C3 fails on the code. 30 pages with \<open>max_chunk_size = 10\<close> and \<open>overlap_pages = 0\<close>
  give three leaves. The root \<open>u5\<close> has level 0, but its children \<open>u3\<close> and \<open>u4\<close> have level
  3, not 1, and their children, the leaves \<open>u0\<close>, \<open>u1\<close>, \<open>u2\<close>, have level 2, not 4 (and not
  1): the parents of round \<open>k\<close> are created at level \<open>k\<close> and set their children to
  \<open>k + 1\<close>, and the last parent is then forced to 0.
\<close>

theorem levels_not_parent_plus_one:
  "map_option (map_sum id (\<lambda>tw. map (\<lambda>(i, k, p, cs, l, m). (i, p, l)) (snd (tree_view tw))))
     (process_pages \<lparr>max_chunk_size = 10, min_chunk_size = 1, overlap_pages = 0\<rparr>
        (empty_world test_uuid) (numbered_pages 30) ''doc'')
   = Some (Inr
        [(''u0'', Some ''u3'', 2),
         (''u1'', Some ''u3'', 2),
         (''u2'', Some ''u4'', 2),
         (''u3'', Some ''u5'', 3),
         (''u4'', Some ''u5'', 3),
         (''u5'', None, 0)])"
  by code_simp

end
